theory Spec2Isabelle
  imports Main "HOL-Library.Sublist" "HOL-Library.Char_ord"
begin

section \<open>The membership roster pipeline of membershipship.go\<close>

text \<open>
  The program fetches a CSV roster over HTTP, maps every row with at least six fields to a
  \<open>Member\<close> and derives the expiration date from the join date. Two variants of the
  program are embedded: \<open>membershipship.go\<close>, whose \<open>parseDate\<close> knows six layouts,
  and the variant with the wallet-card handlers, whose \<open>parseDate\<close> knows the first five
  and is otherwise the same.

  The functions of the Go standard library that the program calls (\<open>strings.TrimSpace\<close>,
  \<open>time.Parse\<close>, \<open>time.Time.AddDate\<close>, the field count check of \<open>csv.Reader\<close>) are
  embedded after the library's documented behaviour, under the library's names. What the
  outside world answers (the environment variable, the HTTP exchange, the clock) and the
  scanner that splits a CSV payload into records are parameters of the model.
\<close>

subsection \<open>Strings: \<open>strings.TrimSpace\<close>\<close>

text \<open>
  A Go string is a sequence of bytes. \<open>strings.TrimSpace\<close> removes the leading and the
  trailing white space as Unicode defines it (\<open>unicode.IsSpace\<close>): the six ASCII characters
  tab, line feed, vertical tab, form feed, carriage return and space, and the code points
  U+0085, U+00A0, U+1680, U+2000 to U+200A, U+2028, U+2029, U+202F, U+205F and U+3000, each
  in its UTF-8 encoding. A byte that does not start a well-formed encoding decodes to
  U+FFFD, which is no white space, so trimming stops there.
\<close>

definition space_encodings :: "string list" where
  "space_encodings =
    [[CHR 0x09], [CHR 0x0A], [CHR 0x0B], [CHR 0x0C], [CHR 0x0D], [CHR 0x20],
     [CHR 0xC2, CHR 0x85], [CHR 0xC2, CHR 0xA0],
     [CHR 0xE1, CHR 0x9A, CHR 0x80],
     [CHR 0xE2, CHR 0x80, CHR 0x80], [CHR 0xE2, CHR 0x80, CHR 0x81],
     [CHR 0xE2, CHR 0x80, CHR 0x82], [CHR 0xE2, CHR 0x80, CHR 0x83],
     [CHR 0xE2, CHR 0x80, CHR 0x84], [CHR 0xE2, CHR 0x80, CHR 0x85],
     [CHR 0xE2, CHR 0x80, CHR 0x86], [CHR 0xE2, CHR 0x80, CHR 0x87],
     [CHR 0xE2, CHR 0x80, CHR 0x88], [CHR 0xE2, CHR 0x80, CHR 0x89],
     [CHR 0xE2, CHR 0x80, CHR 0x8A],
     [CHR 0xE2, CHR 0x80, CHR 0xA8], [CHR 0xE2, CHR 0x80, CHR 0xA9],
     [CHR 0xE2, CHR 0x80, CHR 0xAF], [CHR 0xE2, CHR 0x81, CHR 0x9F],
     [CHR 0xE3, CHR 0x80, CHR 0x80]]"

text \<open>The width in bytes of the white-space rune a string starts with (ends with); 0 if
  the first (last) rune is no white space.\<close>

definition leading_space :: "string \<Rightarrow> nat" where
  "leading_space s =
    (case find (\<lambda>e. prefix e s) space_encodings of None \<Rightarrow> 0 | Some e \<Rightarrow> length e)"

definition trailing_space :: "string \<Rightarrow> nat" where
  "trailing_space s =
    (case find (\<lambda>e. suffix e s) space_encodings of None \<Rightarrow> 0 | Some e \<Rightarrow> length e)"

lemma space_encodings_nonempty: "e \<in> set space_encodings \<Longrightarrow> e \<noteq> []"
  by (auto simp: space_encodings_def)

lemma leading_space_le: "leading_space s \<le> length s"
  by (auto simp: leading_space_def prefix_length_le split: option.splits
      dest!: find_Some_iff[THEN iffD1])

lemma trailing_space_le: "trailing_space s \<le> length s"
  by (auto simp: trailing_space_def suffix_length_le split: option.splits
      dest!: find_Some_iff[THEN iffD1])

lemma leading_space_Nil [simp]: "leading_space [] = 0"
  using leading_space_le [of "[]"] by simp

lemma trailing_space_Nil [simp]: "trailing_space [] = 0"
  using trailing_space_le [of "[]"] by simp

function TrimLeft :: "string \<Rightarrow> string" where
  "TrimLeft s = (if leading_space s = 0 then s else TrimLeft (drop (leading_space s) s))"
  by pat_completeness auto
termination
proof (relation "measure length")
  show "wf (measure length)" by simp
next
  fix s :: string
  assume "leading_space s \<noteq> 0"
  moreover from this have "s \<noteq> []" by auto
  ultimately show "(drop (leading_space s) s, s) \<in> measure length" by simp
qed

function TrimRight :: "string \<Rightarrow> string" where
  "TrimRight s =
    (if trailing_space s = 0 then s else TrimRight (take (length s - trailing_space s) s))"
  by pat_completeness auto
termination
proof (relation "measure length")
  show "wf (measure length)" by simp
next
  fix s :: string
  assume "trailing_space s \<noteq> 0"
  moreover from this have "s \<noteq> []" by auto
  ultimately show "(take (length s - trailing_space s) s, s) \<in> measure length" by simp
qed

declare TrimLeft.simps [simp del] TrimRight.simps [simp del]

definition TrimSpace :: "string \<Rightarrow> string" where
  "TrimSpace s = TrimRight (TrimLeft s)"

text \<open>White space only: a concatenation of encoded white-space runes.\<close>

inductive white :: "string \<Rightarrow> bool" where
  white_Nil: "white []"
| white_Cons: "e \<in> set space_encodings \<Longrightarrow> white s \<Longrightarrow> white (e @ s)"

text \<open>\<open>t\<close> is \<open>s\<close> without its leading and trailing white space.\<close>

definition trimmed_of :: "string \<Rightarrow> string \<Rightarrow> bool" where
  "trimmed_of t s =
    ((\<exists>l r. s = l @ t @ r \<and> white l \<and> white r) \<and> leading_space t = 0 \<and> trailing_space t = 0)"

subsection \<open>Errors\<close>

text \<open>
  Every Go \<open>error\<close> value the pipeline can meet. The program never inspects an error
  beyond \<open>err != nil\<close>; the constructors record which call produced it.
\<close>

datatype error =
    ParseError string \<comment> \<open>\<open>*time.ParseError\<close> of \<open>time.Parse\<close>, with its message\<close>
  | Errorf string \<comment> \<open>an error made by \<open>fmt.Errorf\<close>, with its text\<close>
  | GetError string \<comment> \<open>the error of \<open>http.Get\<close>\<close>
  | ReadAllError string \<comment> \<open>the error of \<open>csv.Reader.ReadAll\<close>\<close>

subsection \<open>Calendar dates: \<open>time.Time\<close>, \<open>time.Date\<close>, \<open>AddDate\<close>\<close>

text \<open>
  A \<open>time.Time\<close> is embedded by the civil fields its accessors \<open>Date()\<close> and
  \<open>Clock()\<close> return, with its location. \<open>time.Parse\<close> answers in UTC, \<open>time.Now\<close>
  in the local zone. Offsets and transitions of the local zone are not modelled.
\<close>

datatype location = UTC | Local

record Time =
  Year :: int
  Month :: int
  Day :: int
  Hour :: int
  Minute :: int
  Second :: int
  Nanosecond :: int
  Loc :: location

definition isLeap :: "int \<Rightarrow> bool" where
  "isLeap year = (year mod 4 = 0 \<and> (year mod 100 \<noteq> 0 \<or> year mod 400 = 0))"

definition daysIn :: "int \<Rightarrow> int \<Rightarrow> int" where
  "daysIn m year =
    (if m = 2 then (if isLeap year then 29 else 28)
     else if m = 4 \<or> m = 6 \<or> m = 9 \<or> m = 11 then 30
     else 31)"

text \<open>\<open>norm\<close> of package time: carry \<open>lo\<close> into \<open>hi\<close> so that \<open>0 \<le> lo < base\<close>.\<close>

definition norm :: "int \<Rightarrow> int \<Rightarrow> int \<Rightarrow> int \<times> int" where
  "norm hi lo base =
    (let (hi, lo) = (if lo < 0 then (let n = (- lo - 1) div base + 1 in (hi - n, lo + n * base))
                     else (hi, lo));
         (hi, lo) = (if lo \<ge> base then (let n = lo div base in (hi + n, lo - n * base))
                     else (hi, lo))
     in (hi, lo))"

text \<open>
  \<open>time.Date\<close> accepts a day outside its month and normalises it: "October 32 converts to
  November 1". The library does so by counting days from an epoch and reading the civil
  date back; \<open>norm_day\<close> carries the day into the month and the year directly. The month is
  between 1 and 12 when \<open>norm_day\<close> is called.
\<close>

lemma daysIn_bounds: "28 \<le> daysIn m y \<and> daysIn m y \<le> 31"
  by (simp add: daysIn_def)

function norm_day :: "int \<Rightarrow> int \<Rightarrow> int \<Rightarrow> int \<times> int \<times> int" where
  "norm_day y m d =
    (if d < 1 then
       (if m \<le> 1 then norm_day (y - 1) 12 (d + daysIn 12 (y - 1))
        else norm_day y (m - 1) (d + daysIn (m - 1) y))
     else if d > daysIn m y then
       (if m \<ge> 12 then norm_day (y + 1) 1 (d - daysIn m y)
        else norm_day y (m + 1) (d - daysIn m y))
     else (y, m, d))"
  by pat_completeness auto
termination
proof (relation "measure (\<lambda>(y, m, d). nat (if d < 1 then 32 - d else d))", goal_cases)
  case 1
  show ?case by simp
next
  case (2 y m d)
  with daysIn_bounds [of 12 "y - 1"] show ?case by (auto split: if_splits)
next
  case (3 y m d)
  with daysIn_bounds [of "m - 1" y] show ?case by (auto split: if_splits)
next
  case (4 y m d)
  with daysIn_bounds [of m y] show ?case by (auto split: if_splits)
next
  case (5 y m d)
  with daysIn_bounds [of m y] show ?case by (auto split: if_splits)
qed

declare norm_day.simps [simp del]

definition Date :: "int \<Rightarrow> int \<Rightarrow> int \<Rightarrow> int \<Rightarrow> int \<Rightarrow> int \<Rightarrow> int \<Rightarrow> location \<Rightarrow> Time" where
  "Date year month day hour minute sec nsec loc =
    (let (year, m) = norm year (month - 1) 12;
         month = m + 1;
         (sec, nsec) = norm sec nsec 1000000000;
         (minute, sec) = norm minute sec 60;
         (hour, minute) = norm hour minute 60;
         (day, hour) = norm day hour 24;
         (year, month, day) = norm_day year month day
     in \<lparr>Year = year, Month = month, Day = day, Hour = hour, Minute = minute, Second = sec,
         Nanosecond = nsec, Loc = loc\<rparr>)"

definition AddDate :: "Time \<Rightarrow> int \<Rightarrow> int \<Rightarrow> int \<Rightarrow> Time" where
  "AddDate t years months days =
    Date (Year t + years) (Month t + months) (Day t + days)
      (Hour t) (Minute t) (Second t) (Nanosecond t) (Loc t)"

text \<open>A value that \<open>time.Now\<close> or \<open>time.Parse\<close> can return denotes a real instant.\<close>

definition valid_time :: "Time \<Rightarrow> bool" where
  "valid_time t =
    (1 \<le> Month t \<and> Month t \<le> 12 \<and> 1 \<le> Day t \<and> Day t \<le> daysIn (Month t) (Year t) \<and>
     0 \<le> Hour t \<and> Hour t < 24 \<and> 0 \<le> Minute t \<and> Minute t < 60 \<and>
     0 \<le> Second t \<and> Second t < 60 \<and> 0 \<le> Nanosecond t \<and> Nanosecond t < 1000000000)"

subsection \<open>\<open>time.Parse\<close> for the layouts of \<open>parseDate\<close>\<close>

text \<open>
  A layout is written with the reference time. \<open>nextStdChunk\<close> finds the first element of
  the reference time in a layout and returns the literal text before it, the element, and
  the rest. The layouts of \<open>parseDate\<close> are made of \<open>2006\<close>, \<open>01\<close>, \<open>1\<close>, \<open>02\<close>,
  \<open>2\<close> and the literal \<open>/\<close>; these are the elements embedded here, and every other
  byte counts as literal text. (The other elements of the reference time, such as \<open>15\<close>,
  \<open>03\<close> or \<open>Jan\<close>, do not occur in these layouts.)
\<close>

datatype stdChunk = stdLongYear | stdZeroMonth | stdNumMonth | stdZeroDay | stdDay

fun nextStdChunk :: "string \<Rightarrow> string \<times> stdChunk option \<times> string" where
  "nextStdChunk [] = ([], None, [])"
| "nextStdChunk (c # l) =
    (if c = CHR ''2'' then
       (if take 3 l = ''006'' then ([], Some stdLongYear, drop 3 l)
        else ([], Some stdDay, l))
     else if c = CHR ''0'' \<and> take 1 l = ''1'' then ([], Some stdZeroMonth, drop 1 l)
     else if c = CHR ''0'' \<and> take 1 l = ''2'' then ([], Some stdZeroDay, drop 1 l)
     else if c = CHR ''1'' then ([], Some stdNumMonth, l)
     else (case nextStdChunk l of (pfx, std, sfx) \<Rightarrow> (c # pfx, std, sfx)))"

definition errBad :: error where
  "errBad = ParseError ''bad value for field''"

definition isDigit :: "string \<Rightarrow> nat \<Rightarrow> bool" where
  "isDigit s i = (i < length s \<and> CHR ''0'' \<le> s ! i \<and> s ! i \<le> CHR ''9'')"

definition digit :: "char \<Rightarrow> int" where
  "digit c = int (of_char c) - int (of_char CHR ''0'')"

text \<open>\<open>getnum\<close> parses \<open>s[0:1]\<close> or \<open>s[0:2]\<close> (fixed forces two digits) as a decimal
  integer and returns the integer and the remainder of the string.\<close>

definition getnum :: "string \<Rightarrow> bool \<Rightarrow> error + (int \<times> string)" where
  "getnum s fixed =
    (if \<not> isDigit s 0 then Inl errBad
     else if \<not> isDigit s 1 then
       (if fixed then Inl errBad else Inr (digit (s ! 0), drop 1 s))
     else Inr (digit (s ! 0) * 10 + digit (s ! 1), drop 2 s))"

text \<open>\<open>atoi\<close> of package time: an optional sign and decimal digits, nothing else. (The
  overflow check of the library cannot fire on the four bytes \<open>Parse\<close> passes.)\<close>

definition atoi :: "string \<Rightarrow> error + int" where
  "atoi s =
    (let neg = (s \<noteq> [] \<and> hd s = CHR ''-'');
         s1 = (if s \<noteq> [] \<and> (hd s = CHR ''-'' \<or> hd s = CHR ''+'') then tl s else s)
     in if list_all (\<lambda>c. CHR ''0'' \<le> c \<and> c \<le> CHR ''9'') s1
        then (let x = foldl (\<lambda>x c. x * 10 + digit c) 0 s1 in Inr (if neg then - x else x))
        else Inl (ParseError ''time: invalid number''))"

text \<open>\<open>skip\<close> removes the literal prefix of the layout from the value. A space in the
  prefix stands for any run of spaces in the value.\<close>

definition cutspace :: "string \<Rightarrow> string" where
  "cutspace s = dropWhile (\<lambda>c. c = CHR '' '') s"

function skip :: "string \<Rightarrow> string \<Rightarrow> error + string" where
  "skip v [] = Inr v"
| "skip v (p # ps) =
    (if p = CHR '' '' then
       (if v \<noteq> [] \<and> hd v \<noteq> CHR '' '' then Inl errBad
        else skip (cutspace v) (cutspace (p # ps)))
     else if v = [] \<or> hd v \<noteq> p then Inl errBad
     else skip (tl v) ps)"
  by pat_completeness auto
termination
proof (relation "measure (\<lambda>(v, p). length p)", goal_cases)
  case 1
  show ?case by simp
next
  case (2 v p ps)
  have "length (dropWhile (\<lambda>c. c = CHR '' '') ps) \<le> length ps"
    by (rule length_dropWhile_le)
  with 2 show ?case by (simp add: cutspace_def)
next
  case (3 v p ps)
  show ?case by simp
qed

text \<open>The fields \<open>Parse\<close> collects: year, month and day (\<open>-1\<close> while unset).\<close>

type_synonym ymd = "int \<times> int \<times> int"

text \<open>One element of the layout, read from the value: the \<open>switch std & stdMask\<close> of
  \<open>Parse\<close>, followed by its two checks \<open>rangeErrString != ""\<close> and \<open>err != nil\<close>.\<close>

fun parse_std :: "stdChunk \<Rightarrow> string \<Rightarrow> ymd \<Rightarrow> error + (string \<times> ymd)" where
  "parse_std stdLongYear v (year, month, day) =
    (if length v < 4 \<or> \<not> isDigit v 0 then Inl errBad
     else (case atoi (take 4 v) of
             Inl e \<Rightarrow> Inl e
           | Inr y \<Rightarrow> Inr (drop 4 v, (y, month, day))))"
| "parse_std stdZeroMonth v (year, month, day) =
    (case getnum v True of
       Inl e \<Rightarrow> Inl e
     | Inr (m, v') \<Rightarrow>
         if m \<le> 0 \<or> 12 < m then Inl (ParseError ''month out of range'')
         else Inr (v', (year, m, day)))"
| "parse_std stdNumMonth v (year, month, day) =
    (case getnum v False of
       Inl e \<Rightarrow> Inl e
     | Inr (m, v') \<Rightarrow>
         if m \<le> 0 \<or> 12 < m then Inl (ParseError ''month out of range'')
         else Inr (v', (year, m, day)))"
| "parse_std stdZeroDay v (year, month, day) =
    (case getnum v True of
       Inl e \<Rightarrow> Inl e
     | Inr (d, v') \<Rightarrow> Inr (v', (year, month, d)))"
| "parse_std stdDay v (year, month, day) =
    (case getnum v False of
       Inl e \<Rightarrow> Inl e
     | Inr (d, v') \<Rightarrow> Inr (v', (year, month, d)))"

lemma nextStdChunk_shorter:
  "nextStdChunk l = (pfx, Some std, sfx) \<Longrightarrow> length sfx < length l"
  by (induction l arbitrary: pfx) (auto split: if_splits prod.splits)

text \<open>The \<open>for\<close> loop of \<open>Parse\<close>: each round consumes one element of the layout.\<close>

function parse_loop :: "string \<Rightarrow> string \<Rightarrow> ymd \<Rightarrow> error + ymd" where
  "parse_loop layout v f =
    (case nextStdChunk layout of (pfx, std, sfx) \<Rightarrow>
      (case skip v pfx of
         Inl e \<Rightarrow> Inl e
       | Inr v1 \<Rightarrow>
          (case std of
             None \<Rightarrow> (if v1 \<noteq> [] then Inl (ParseError ''extra text'') else Inr f)
           | Some s \<Rightarrow>
              (case parse_std s v1 f of
                 Inl e \<Rightarrow> Inl e
               | Inr (v2, f2) \<Rightarrow> parse_loop sfx v2 f2))))"
  by pat_completeness auto
termination
  by (relation "measure (\<lambda>(layout, v, f). length layout)")
     (auto dest: nextStdChunk_shorter [OF sym])

declare parse_loop.simps [simp del]

text \<open>
  \<open>time.Parse\<close>: after the loop an unset month or day is 1, the day must exist in its
  month, and the result is midnight of that day in UTC.
\<close>

definition Parse :: "string \<Rightarrow> string \<Rightarrow> error + Time" where
  "Parse layout v =
    (case parse_loop layout v (0, -1, -1) of
       Inl e \<Rightarrow> Inl e
     | Inr (year, month, day) \<Rightarrow>
        (let month = (if month < 0 then 1 else month);
             day = (if day < 0 then 1 else day)
         in if day < 1 \<or> day > daysIn month year then Inl (ParseError ''day out of range'')
            else Inr (Date year month day 0 0 0 0 UTC)))"


subsection \<open>\<open>parseDate\<close>\<close>

datatype variant = SixLayouts | FiveLayouts

definition layouts :: "variant \<Rightarrow> string list" where
  "layouts v =
    [''02/01/2006'', \<comment> \<open>DD/MM/YYYY\<close>
     ''2/1/2006'', \<comment> \<open>D/M/YYYY\<close>
     ''1/2/2006'', \<comment> \<open>M/D/YYYY\<close>
     ''02/1/2006'', \<comment> \<open>DD/M/YYYY\<close>
     ''2/01/2006''] \<comment> \<open>D/MM/YYYY\<close>
    @ (case v of SixLayouts \<Rightarrow> [''2006''] \<comment> \<open>YYYY\<close>
       | FiveLayouts \<Rightarrow> [])"

text \<open>The \<open>for _, layout := range layouts\<close> loop: return at the first layout that parses.\<close>

fun range_layouts :: "string list \<Rightarrow> string \<Rightarrow> Time option" where
  "range_layouts [] dateStr = None"
| "range_layouts (layout # ls) dateStr =
    (case Parse layout dateStr of
       Inr parsedTime \<Rightarrow> Some parsedTime
     | Inl err \<Rightarrow> range_layouts ls dateStr)"

definition parseDate :: "variant \<Rightarrow> string \<Rightarrow> error + Time" where
  "parseDate v dateStr =
    (let dateStr = TrimSpace dateStr
     in case range_layouts (layouts v) dateStr of
          Some parsedTime \<Rightarrow> Inr parsedTime
        | None \<Rightarrow> Inl (Errorf (''unable to parse date: '' @ dateStr)))"

subsection \<open>The world and the effects of a run\<close>

record Member =
  FirstName :: string
  LastName :: string
  Email :: string
  JoinDate :: Time
  ExpirationDate :: Time

record Response =
  StatusCode :: nat
  Body :: string

text \<open>
  What a run reads from outside: the environment variables, the answer of \<open>http.Get\<close> to
  a URL (an error, or a response with whatever status code the server sent: the library
  reports no error for a status outside 2xx), the records that the scanner of
  \<open>csv.Reader\<close> (with comma as the delimiter) finds in a body, one after the other (the
  fields of a record, or the error at which scanning stops; the list ends at \<open>io.EOF\<close>),
  and the successive readings of \<open>time.Now\<close>.
\<close>

record world =
  Getenv :: "string \<Rightarrow> string"
  http_Get :: "string \<Rightarrow> error + Response"
  csv_scan :: "string \<Rightarrow> (error + string list) list"
  Now :: "nat \<Rightarrow> Time"

text \<open>
  \<open>csv.Reader.ReadAll\<close> reads records until \<open>io.EOF\<close> or the first error. The program
  leaves the reader's \<open>FieldsPerRecord\<close> at 0, so the reader sets it to the number of
  fields of the first record, and every later record with another number of fields is the
  error \<open>ErrFieldCount\<close>.
\<close>

definition ErrFieldCount :: error where
  "ErrFieldCount = ReadAllError ''wrong number of fields''"

fun ReadAll_loop ::
  "nat \<Rightarrow> (error + string list) list \<Rightarrow> string list list \<Rightarrow> error + string list list"
where
  "ReadAll_loop FieldsPerRecord [] records = Inr records"
| "ReadAll_loop FieldsPerRecord (Inl err # scanned) records = Inl err"
| "ReadAll_loop FieldsPerRecord (Inr record # scanned) records =
    (if FieldsPerRecord > 0 then
       (if length record \<noteq> FieldsPerRecord then Inl ErrFieldCount
        else ReadAll_loop FieldsPerRecord scanned (records @ [record]))
     else ReadAll_loop (length record) scanned (records @ [record]))"

definition ReadAll :: "world \<Rightarrow> string \<Rightarrow> error + string list list" where
  "ReadAll w body = ReadAll_loop 0 (csv_scan w body) []"

text \<open>
  What a run does to the outside: the URLs it has requested, the number of times it has
  read the clock, and the lines it has logged (the row index and the error of
  \<open>log.Printf("Error parsing join date for row %d: %v. Using current date instead.")\<close>).
\<close>

record effects =
  requests :: "string list"
  clock :: nat
  logged :: "(nat \<times> error) list"

subsection \<open>\<open>readCSVFromUrl\<close> and \<open>fetchMemberData\<close>\<close>

definition member_of :: "string list \<Rightarrow> Time \<Rightarrow> Member" where
  "member_of row joinDate =
    \<lparr>FirstName = TrimSpace (row ! 1),
     LastName = TrimSpace (row ! 2),
     Email = TrimSpace (row ! 3),
     JoinDate = joinDate,
     ExpirationDate = AddDate joinDate 1 0 0\<rparr>"

text \<open>The body of \<open>for i, row := range data\<close>. The reads \<open>row[1]\<close>, \<open>row[2]\<close>,
  \<open>row[3]\<close> and \<open>row[5]\<close> happen only behind the guard \<open>len(row) < 6\<close>, so none is out
  of range.\<close>

definition row_step ::
  "variant \<Rightarrow> world \<Rightarrow> nat \<Rightarrow> string list \<Rightarrow> Member list \<times> effects \<Rightarrow> Member list \<times> effects"
where
  "row_step v w i row acc =
    (case acc of (members, fx) \<Rightarrow>
      if i = 0 \<or> length row < 6 then (members, fx)
      else (case parseDate v (row ! 5) of
              Inr joinDate \<Rightarrow> (members @ [member_of row joinDate], fx)
            | Inl err \<Rightarrow>
               (let fx = fx\<lparr>logged := logged fx @ [(i, err)]\<rparr>;
                    joinDate = Now w (clock fx);
                    fx = fx\<lparr>clock := clock fx + 1\<rparr>
                in (members @ [member_of row joinDate], fx))))"

fun range_data ::
  "variant \<Rightarrow> world \<Rightarrow> nat \<Rightarrow> string list list \<Rightarrow> Member list \<times> effects \<Rightarrow> Member list \<times> effects"
where
  "range_data v w i [] acc = acc"
| "range_data v w i (row # data) acc = range_data v w (i + 1) data (row_step v w i row acc)"

definition readCSVFromUrl ::
  "variant \<Rightarrow> world \<Rightarrow> string \<Rightarrow> effects \<Rightarrow> (error + Member list) \<times> effects"
where
  "readCSVFromUrl v w url fx =
    (let fx = fx\<lparr>requests := requests fx @ [url]\<rparr>
     in case http_Get w url of
          Inl err \<Rightarrow> (Inl err, fx)
        | Inr resp \<Rightarrow>
           (case ReadAll w (Body resp) of
              Inl err \<Rightarrow> (Inl err, fx)
            | Inr data \<Rightarrow>
               (case range_data v w 0 data ([], fx) of
                  (members, fx) \<Rightarrow> (Inr members, fx))))"

definition fetchMemberData ::
  "variant \<Rightarrow> world \<Rightarrow> effects \<Rightarrow> (error + Member list) \<times> effects"
where
  "fetchMemberData v w fx =
    (let url = Getenv w ''CSV_URL''
     in if url = [] then (Inl (Errorf ''CSV_URL environment variable is not set''), fx)
        else readCSVFromUrl v w url fx)"


subsection \<open>A concrete roster\<close>

text \<open>
  A feed of four lines and the records the scanner finds in them: the header, a day-first
  date, a 29th of February with an e-mail address between spaces, and a date that no layout
  matches. The server answers the roster's URL with a status code of the caller's choice.
\<close>

definition roster_url :: string where
  "roster_url = ''https://roster.example/members.csv''"

definition roster_body :: string where
  "roster_body =
    ''H1,H2,H3,H4,H5,H6'' @ [CHR 0x0A] @
    ''x,Ann,Lee,ann@x.com,y,15/03/2023'' @ [CHR 0x0A] @
    ''x,Cy,Poe, cy@x.com ,y,29/02/2020'' @ [CHR 0x0A] @
    ''x,Di,Roe,di@x.com,y,not-a-date'' @ [CHR 0x0A]"

definition roster_rows :: "string list list" where
  "roster_rows =
    [[''H1'', ''H2'', ''H3'', ''H4'', ''H5'', ''H6''],
     [''x'', ''Ann'', ''Lee'', ''ann@x.com'', ''y'', ''15/03/2023''],
     [''x'', ''Cy'', ''Poe'', '' cy@x.com '', ''y'', ''29/02/2020''],
     [''x'', ''Di'', ''Roe'', ''di@x.com'', ''y'', ''not-a-date'']]"

definition noon :: Time where
  "noon = \<lparr>Year = 2026, Month = 10, Day = 31, Hour = 12, Minute = 0, Second = 0,
           Nanosecond = 0, Loc = Local\<rparr>"

definition midnight :: "int \<Rightarrow> int \<Rightarrow> int \<Rightarrow> Time" where
  "midnight y m d = \<lparr>Year = y, Month = m, Day = d, Hour = 0, Minute = 0, Second = 0,
                     Nanosecond = 0, Loc = UTC\<rparr>"

text \<open>A world whose server answers the roster's URL with the given status code and body,
  and whose scanner finds the given records in that body.\<close>

definition feed_world :: "nat \<Rightarrow> string \<Rightarrow> string list list \<Rightarrow> world" where
  "feed_world code body rows =
    \<lparr>Getenv = (\<lambda>name. if name = ''CSV_URL'' then roster_url else []),
     http_Get = (\<lambda>url. if url = roster_url
                         then Inr \<lparr>StatusCode = code, Body = body\<rparr>
                         else Inl (GetError ''no such host'')),
     csv_scan = (\<lambda>b. if b = body then map Inr rows
                       else [Inl (ReadAllError ''parse error'')]),
     Now = (\<lambda>k. noon\<lparr>Second := int (k mod 60)\<rparr>)\<rparr>"

definition roster_world :: "nat \<Rightarrow> world" where
  "roster_world code = feed_world code roster_body roster_rows"



definition ragged_body :: string where
  "ragged_body =
    ''H1,H2,H3,H4,H5,H6'' @ [CHR 0x0A] @
    ''x,Ann,Lee,ann@x.com,y,15/03/2023'' @ [CHR 0x0A] @
    ''x,Bo,Kim,bo@x.com'' @ [CHR 0x0A]"

definition ragged_rows :: "string list list" where
  "ragged_rows =
    [[''H1'', ''H2'', ''H3'', ''H4'', ''H5'', ''H6''],
     [''x'', ''Ann'', ''Lee'', ''ann@x.com'', ''y'', ''15/03/2023''],
     [''x'', ''Bo'', ''Kim'', ''bo@x.com'']]"

definition fx0 :: effects where
  "fx0 = \<lparr>requests = [], clock = 0, logged = []\<rparr>"

text \<open>The records of the three members, as a run over the roster at noon makes them.\<close>

definition ann :: Member where
  "ann = \<lparr>FirstName = ''Ann'', LastName = ''Lee'', Email = ''ann@x.com'',
          JoinDate = midnight 2023 3 15, ExpirationDate = midnight 2024 3 15\<rparr>"

definition cy :: Member where
  "cy = \<lparr>FirstName = ''Cy'', LastName = ''Poe'', Email = ''cy@x.com'',
         JoinDate = midnight 2020 2 29, ExpirationDate = midnight 2021 3 1\<rparr>"

definition di :: Member where
  "di = \<lparr>FirstName = ''Di'', LastName = ''Roe'', Email = ''di@x.com'',
         JoinDate = noon, ExpirationDate = noon\<lparr>Year := 2027\<rparr>\<rparr>"

definition fx1 :: effects where
  "fx1 = \<lparr>requests = [roster_url], clock = 1,
          logged = [(3, Errorf ''unable to parse date: not-a-date'')]\<rparr>"

section \<open>Properties of the library functions\<close>

subsection \<open>\<open>TrimSpace\<close> removes white space at both ends, and only that\<close>

lemma white_append: "white a \<Longrightarrow> white b \<Longrightarrow> white (a @ b)"
  by (induction rule: white.induct) (auto intro: white.intros)

lemma leading_space_take:
  assumes "leading_space s \<noteq> 0"
  shows "take (leading_space s) s \<in> set space_encodings"
proof -
  from assms obtain e where f: "find (\<lambda>e. prefix e s) space_encodings = Some e"
    by (auto simp: leading_space_def split: option.splits)
  then have "e \<in> set space_encodings" "prefix e s"
    by (auto simp: find_Some_iff)
  moreover from f have "leading_space s = length e" by (simp add: leading_space_def)
  ultimately show ?thesis by (auto simp: prefix_def)
qed

lemma trailing_space_drop:
  assumes "trailing_space s \<noteq> 0"
  shows "drop (length s - trailing_space s) s \<in> set space_encodings"
proof -
  from assms obtain e where f: "find (\<lambda>e. suffix e s) space_encodings = Some e"
    by (auto simp: trailing_space_def split: option.splits)
  then have "e \<in> set space_encodings" "suffix e s"
    by (auto simp: find_Some_iff)
  moreover from f have "trailing_space s = length e" by (simp add: trailing_space_def)
  ultimately show ?thesis by (auto simp: suffix_def)
qed

lemma leading_space_0_iff: "leading_space s = 0 \<longleftrightarrow> (\<forall>e \<in> set space_encodings. \<not> prefix e s)"
proof (cases "find (\<lambda>e. prefix e s) space_encodings")
  case None
  then have "\<forall>e \<in> set space_encodings. \<not> prefix e s" by (simp add: find_None_iff)
  with None show ?thesis by (simp add: leading_space_def)
next
  case (Some e)
  then have "e \<in> set space_encodings" "prefix e s" by (auto simp: find_Some_iff)
  with Some space_encodings_nonempty [of e] show ?thesis
    by (auto simp: leading_space_def)
qed

lemma trailing_space_0_iff: "trailing_space s = 0 \<longleftrightarrow> (\<forall>e \<in> set space_encodings. \<not> suffix e s)"
proof (cases "find (\<lambda>e. suffix e s) space_encodings")
  case None
  then have "\<forall>e \<in> set space_encodings. \<not> suffix e s" by (simp add: find_None_iff)
  with None show ?thesis by (simp add: trailing_space_def)
next
  case (Some e)
  then have "e \<in> set space_encodings" "suffix e s" by (auto simp: find_Some_iff)
  with Some space_encodings_nonempty [of e] show ?thesis
    by (auto simp: trailing_space_def)
qed

lemma TrimLeft_split: "\<exists>l. s = l @ TrimLeft s \<and> white l"
proof (induction s rule: TrimLeft.induct)
  case (1 s)
  show ?case
  proof (cases "leading_space s = 0")
    case True
    then have "TrimLeft s = s" by (subst TrimLeft.simps) simp
    then show ?thesis by (auto intro: white.intros)
  next
    case False
    from "1.IH" [OF False] obtain l where
      l: "drop (leading_space s) s = l @ TrimLeft (drop (leading_space s) s)" "white l" by blast
    from False have t: "TrimLeft s = TrimLeft (drop (leading_space s) s)"
      by (subst TrimLeft.simps) simp
    have "s = take (leading_space s) s @ drop (leading_space s) s" by simp
    with l t have "s = (take (leading_space s) s @ l) @ TrimLeft s" by (metis append_assoc)
    moreover have "white (take (leading_space s) s @ l)"
      using leading_space_take [OF False] l(2) by (rule white.intros)
    ultimately show ?thesis by blast
  qed
qed

lemma TrimRight_split: "\<exists>r. s = TrimRight s @ r \<and> white r"
proof (induction s rule: TrimRight.induct)
  case (1 s)
  show ?case
  proof (cases "trailing_space s = 0")
    case True
    then have "TrimRight s = s" by (subst TrimRight.simps) simp
    then show ?thesis by (auto intro: white.intros)
  next
    case False
    let ?n = "length s - trailing_space s"
    from "1.IH" [OF False] obtain r where
      r: "take ?n s = TrimRight (take ?n s) @ r" "white r" by blast
    from False have t: "TrimRight s = TrimRight (take ?n s)"
      by (subst TrimRight.simps) simp
    have "s = take ?n s @ drop ?n s" by simp
    with r t have "s = TrimRight s @ (r @ drop ?n s)" by (metis append_assoc)
    moreover have "white (drop ?n s @ [])"
      using trailing_space_drop [OF False] white_Nil by (rule white.intros)
    then have "white (r @ drop ?n s)" using r(2) by (simp add: white_append)
    ultimately show ?thesis by blast
  qed
qed

lemma TrimLeft_no_leading: "leading_space (TrimLeft s) = 0"
  by (induction s rule: TrimLeft.induct) (subst TrimLeft.simps, simp)

lemma TrimRight_no_trailing: "trailing_space (TrimRight s) = 0"
  by (induction s rule: TrimRight.induct) (subst TrimRight.simps, simp)

lemma TrimRight_prefix: "prefix (TrimRight s) s"
  using TrimRight_split [of s] by (auto simp: prefix_def)

lemma TrimSpace_edges: "leading_space (TrimSpace s) = 0 \<and> trailing_space (TrimSpace s) = 0"
proof
  have "leading_space (TrimLeft s) = 0" by (rule TrimLeft_no_leading)
  moreover have "prefix (TrimRight (TrimLeft s)) (TrimLeft s)" by (rule TrimRight_prefix)
  ultimately show "leading_space (TrimSpace s) = 0"
    unfolding leading_space_0_iff TrimSpace_def by (meson prefix_order.trans)
  show "trailing_space (TrimSpace s) = 0"
    by (simp add: TrimSpace_def TrimRight_no_trailing)
qed

lemma TrimSpace_split: "\<exists>l r. s = l @ TrimSpace s @ r \<and> white l \<and> white r"
proof -
  obtain l where l: "s = l @ TrimLeft s" "white l" using TrimLeft_split by blast
  obtain r where r: "TrimLeft s = TrimRight (TrimLeft s) @ r" "white r"
    using TrimRight_split by blast
  from l r have "s = l @ TrimSpace s @ r" by (simp add: TrimSpace_def)
  with l r show ?thesis by blast
qed

lemma TrimSpace_idem: "TrimSpace (TrimSpace s) = TrimSpace s"
proof -
  from TrimSpace_edges [of s] have "TrimLeft (TrimSpace s) = TrimSpace s"
    by (subst TrimLeft.simps) simp
  moreover from TrimSpace_edges [of s] have "TrimRight (TrimSpace s) = TrimSpace s"
    by (subst TrimRight.simps) simp
  ultimately show ?thesis by (simp add: TrimSpace_def [of "TrimSpace s"])
qed

subsection \<open>\<open>Parse\<close> returns real dates; \<open>AddDate\<close> by one year\<close>



lemma norm_id: "0 \<le> lo \<Longrightarrow> lo < base \<Longrightarrow> norm hi lo base = (hi, lo)"
  by (simp add: norm_def)

lemma norm_day_id: "1 \<le> d \<Longrightarrow> d \<le> daysIn m y \<Longrightarrow> norm_day y m d = (y, m, d)"
  by (subst norm_day.simps) simp



lemma AddDate_year:
  assumes "valid_time t"
  shows "AddDate t 1 0 0 =
    (if Month t = 2 \<and> Day t = 29 then t\<lparr>Year := Year t + 1, Month := 3, Day := 1\<rparr>
     else t\<lparr>Year := Year t + 1\<rparr>)"
proof -
  from assms have m: "norm (Year t + 1) (Month t - 1) 12 = (Year t + 1, Month t - 1)"
    by (simp add: norm_id valid_time_def)
  from assms have c: "norm (Second t) (Nanosecond t) 1000000000 = (Second t, Nanosecond t)"
    "norm (Minute t) (Second t) 60 = (Minute t, Second t)"
    "norm (Hour t) (Minute t) 60 = (Hour t, Minute t)"
    "norm (Day t) (Hour t) 24 = (Day t, Hour t)"
    by (simp_all add: norm_id valid_time_def)
  have d: "norm_day (Year t + 1) (Month t) (Day t) =
    (if Month t = 2 \<and> Day t = 29 then (Year t + 1, 3, 1) else (Year t + 1, Month t, Day t))"
  proof (cases "Month t = 2 \<and> Day t = 29")
    case True
    with assms have "isLeap (Year t)" by (auto simp: valid_time_def daysIn_def split: if_splits)
    then have "Year t mod 4 = 0" by (simp add: isLeap_def)
    then have "(Year t + 1) mod 4 \<noteq> 0" by presburger
    then have "\<not> isLeap (Year t + 1)" by (simp add: isLeap_def)
    then have "daysIn 2 (Year t + 1) = 28" by (simp add: daysIn_def)
    then have "norm_day (Year t + 1) 2 29 = norm_day (Year t + 1) 3 1"
      by (subst norm_day.simps) simp
    also have "\<dots> = (Year t + 1, 3, 1)" by (rule norm_day_id) (simp_all add: daysIn_def)
    finally show ?thesis using True by simp
  next
    case False
    with assms have "Day t \<le> daysIn (Month t) (Year t + 1)"
      by (auto simp: valid_time_def daysIn_def split: if_splits)
    with assms False show ?thesis by (simp add: norm_day_id valid_time_def)
  qed
  show ?thesis
    by (simp add: AddDate_def Date_def m c d)
qed

section \<open>Properties of the pipeline\<close>

subsection \<open>The loop over the rows\<close>



lemma row_step_fallback:
  "i \<noteq> 0 \<Longrightarrow> 6 \<le> length row \<Longrightarrow> parseDate v (row ! 5) = Inl e \<Longrightarrow>
   row_step v w i row (ms, fx) =
     (ms @ [member_of row (Now w (clock fx))],
      fx\<lparr>logged := logged fx @ [(i, e)], clock := clock fx + 1\<rparr>)"
  by (simp add: row_step_def)

lemma range_data_append:
  "range_data v w i (xs @ ys) acc = range_data v w (i + length xs) ys (range_data v w i xs acc)"
  by (induction xs arbitrary: i acc) simp_all

text \<open>A step appends at most one record, never touches the requests, and only adds to the
  log and to the clock.\<close>

lemma row_step_grows:
  "\<exists>recs fx'. row_step v w i row (ms, fx) = (ms @ recs, fx') \<and>
     length recs = (if i \<noteq> 0 \<and> 6 \<le> length row then 1 else 0) \<and>
     prefix (logged fx) (logged fx') \<and> requests fx' = requests fx"
  by (cases "parseDate v (row ! 5)") (auto simp: row_step_def)

lemma range_data_grows:
  "\<exists>recs fx'. range_data v w i data (ms, fx) = (ms @ recs, fx') \<and>
     length recs = length (filter (\<lambda>row. 6 \<le> length row) (if i = 0 then tl data else data)) \<and>
     prefix (logged fx) (logged fx') \<and> requests fx' = requests fx"
proof (induction data arbitrary: i ms fx)
  case Nil
  show ?case by simp
next
  case (Cons row data)
  obtain r1 fx1 where s: "row_step v w i row (ms, fx) = (ms @ r1, fx1)"
    "length r1 = (if i \<noteq> 0 \<and> 6 \<le> length row then 1 else 0)"
    "prefix (logged fx) (logged fx1)" "requests fx1 = requests fx"
    using row_step_grows by blast
  obtain r2 fx2 where r: "range_data v w (i + 1) data (ms @ r1, fx1) = ((ms @ r1) @ r2, fx2)"
    "length r2 = length (filter (\<lambda>row. 6 \<le> length row) data)"
    "prefix (logged fx1) (logged fx2)" "requests fx2 = requests fx1"
    using Cons.IH [of "i + 1" "ms @ r1" fx1] by auto
  from s r have "range_data v w i (row # data) (ms, fx) = (ms @ (r1 @ r2), fx2)" by simp
  moreover from s r have
    "length (r1 @ r2) =
       length (filter (\<lambda>row. 6 \<le> length row) (if i = 0 then tl (row # data) else row # data))"
    by simp
  moreover from s r have "prefix (logged fx) (logged fx2)" by (meson prefix_order.trans)
  moreover from s r have "requests fx2 = requests fx" by simp
  ultimately show ?case by blast
qed

lemma range_layouts_find:
  "range_layouts ls s =
     (case find (\<lambda>layout. \<not> isl (Parse layout s)) ls of
        None \<Rightarrow> None
      | Some layout \<Rightarrow> Some (projr (Parse layout s)))"
  by (induction ls) (auto split: sum.splits)



lemma parseDate_TrimSpace: "parseDate v (TrimSpace s) = parseDate v s"
  by (simp add: parseDate_def TrimSpace_idem)



lemma TrimSpace_trimmed_of: "trimmed_of (TrimSpace s) s"
  using TrimSpace_split [of s] TrimSpace_edges [of s] by (simp add: trimmed_of_def)

lemma range_layouts_None:
  "range_layouts ls s = None \<longleftrightarrow> list_all (\<lambda>layout. isl (Parse layout s)) ls"
  by (induction ls) (auto split: sum.splits)

lemma parseDate_unparseable:
  "list_all (\<lambda>layout. isl (Parse layout (TrimSpace s))) (layouts v) \<Longrightarrow>
   parseDate v s = Inl (Errorf (''unable to parse date: '' @ TrimSpace s))"
  by (simp add: parseDate_def range_layouts_None [symmetric])

lemma parseDate_find:
  "parseDate v s =
    (case find (\<lambda>layout. \<not> isl (Parse layout (TrimSpace s))) (layouts v) of
       Some layout \<Rightarrow> Parse layout (TrimSpace s)
     | None \<Rightarrow> Inl (Errorf (''unable to parse date: '' @ TrimSpace s)))"
proof (cases "find (\<lambda>layout. \<not> isl (Parse layout (TrimSpace s))) (layouts v)")
  case None
  then show ?thesis by (simp add: parseDate_def range_layouts_find)
next
  case (Some layout)
  then have "\<not> isl (Parse layout (TrimSpace s))" by (auto simp: find_Some_iff)
  then have "Inr (projr (Parse layout (TrimSpace s))) = Parse layout (TrimSpace s)"
    by (cases "Parse layout (TrimSpace s)") auto
  with Some show ?thesis by (simp add: parseDate_def range_layouts_find)
qed

text \<open>The record of a row with at least six fields that is not the first, within a run.\<close>

lemma run_at_row:
  assumes get: "http_Get w url = Inr resp"
    and read: "ReadAll w (Body resp) = Inr (pre @ row # post)"
    and pre: "pre \<noteq> []" and len: "6 \<le> length row"
  shows "\<exists>ms fxa rest fxb.
    range_data v w 0 pre ([], fx\<lparr>requests := requests fx @ [url]\<rparr>) = (ms, fxa) \<and>
    range_data v w (length pre + 1) post (row_step v w (length pre) row (ms, fxa)) =
      (fst (row_step v w (length pre) row (ms, fxa)) @ rest, fxb) \<and>
    prefix (logged (snd (row_step v w (length pre) row (ms, fxa)))) (logged fxb) \<and>
    readCSVFromUrl v w url fx = (Inr (fst (row_step v w (length pre) row (ms, fxa)) @ rest), fxb)"
proof -
  let ?fx = "fx\<lparr>requests := requests fx @ [url]\<rparr>"
  obtain ms fxa where a: "range_data v w 0 pre ([], ?fx) = (ms, fxa)"
    by (cases "range_data v w 0 pre ([], ?fx)") auto
  obtain ms1 fx1 where s: "row_step v w (length pre) row (ms, fxa) = (ms1, fx1)"
    by (cases "row_step v w (length pre) row (ms, fxa)") auto
  obtain rest fxb where
    b: "range_data v w (length pre + 1) post (ms1, fx1) = (ms1 @ rest, fxb)"
    and l: "prefix (logged fx1) (logged fxb)"
    using range_data_grows [of v w "length pre + 1" post ms1 fx1] by blast
  have "range_data v w 0 (pre @ row # post) ([], ?fx) = (ms1 @ rest, fxb)"
    using a s b by (simp add: range_data_append)
  with get read have "readCSVFromUrl v w url fx = (Inr (ms1 @ rest), fxb)"
    by (simp add: readCSVFromUrl_def)
  with a s b l show ?thesis by auto
qed



text \<open>The loop reads the clock and nothing else of the world.\<close>

lemma row_step_http_Get [simp]:
  "row_step v (w\<lparr>http_Get := g\<rparr>) i row acc = row_step v w i row acc"
  by (cases acc) (simp add: row_step_def Let_def split: sum.splits)

lemma range_data_http_Get [simp]:
  "range_data v (w\<lparr>http_Get := g\<rparr>) i data acc = range_data v w i data acc"
  by (induction data arbitrary: i acc) simp_all

subsection \<open>The concrete roster\<close>

lemma roster_get:
  "http_Get (roster_world code) roster_url = Inr \<lparr>StatusCode = code, Body = roster_body\<rparr>"
  by (simp add: roster_world_def feed_world_def)

lemma roster_read: "ReadAll (roster_world code) roster_body = Inr roster_rows"
  by (simp add: ReadAll_def roster_world_def feed_world_def roster_rows_def)

lemma roster_now_valid: "valid_time (Now (roster_world code) k)"
  by (simp add: roster_world_def feed_world_def noon_def valid_time_def daysIn_def)

lemma roster_run:
  "readCSVFromUrl v (roster_world code) roster_url fx0 = (Inr [ann, cy, di], fx1)"
proof -
  have "range_data SixLayouts (roster_world code) 0 roster_rows
          ([], fx0\<lparr>requests := requests fx0 @ [roster_url]\<rparr>) = ([ann, cy, di], fx1)"
    by (simp add: roster_world_def feed_world_def) code_simp
  moreover have "range_data FiveLayouts (roster_world code) 0 roster_rows
          ([], fx0\<lparr>requests := requests fx0 @ [roster_url]\<rparr>) = ([ann, cy, di], fx1)"
    by (simp add: roster_world_def feed_world_def) code_simp
  ultimately show ?thesis
    by (cases v) (simp_all add: readCSVFromUrl_def roster_get roster_read)
qed

lemma row_step_Now:
  assumes "Now w' = Now w"
  shows "row_step v w' i row acc = row_step v w i row acc"
proof -
  obtain ms fx where acc: "acc = (ms, fx)" by (cases acc) auto
  show ?thesis unfolding acc row_step_def assms by (rule refl)
qed

lemma range_data_Now:
  assumes "Now w' = Now w"
  shows "range_data v w' i data acc = range_data v w i data acc"
  by (induction data arbitrary: i acc) (simp_all add: row_step_Now [OF assms])

lemma ReadAll_http_Get [simp]: "ReadAll (w\<lparr>http_Get := g\<rparr>) body = ReadAll w body"
  by (simp add: ReadAll_def)

subsection \<open>The field count check of the CSV reader\<close>

lemma ReadAll_loop_prefix: "ReadAll_loop n scanned records = Inr data \<Longrightarrow> prefix records data"
proof (induction n scanned records rule: ReadAll_loop.induct)
  case (1 n records)
  then show ?case by simp
next
  case (2 n err scanned records)
  then show ?case by simp
next
  case (3 n r scanned records)
  then have "prefix (records @ [r]) data" by (auto split: if_splits)
  then show ?case by (meson append_prefixD)
qed

lemma ReadAll_loop_same_length:
  "ReadAll_loop n scanned records = Inr data \<Longrightarrow> 0 < n \<Longrightarrow>
   \<exists>rest. data = records @ rest \<and> list_all (\<lambda>row. length row = n) rest"
proof (induction n scanned records rule: ReadAll_loop.induct)
  case (1 n records)
  then show ?case by simp
next
  case (2 n err scanned records)
  then show ?case by simp
next
  case (3 n r scanned records)
  from "3.prems" have l: "length r = n"
    and r: "ReadAll_loop n scanned (records @ [r]) = Inr data"
    by (simp_all split: if_splits)
  from "3.IH"(1) [OF "3.prems"(2) _ r "3.prems"(2)] l obtain rest where
    "data = (records @ [r]) @ rest" "list_all (\<lambda>row. length row = n) rest" by auto
  with l have "data = records @ (r # rest) \<and> list_all (\<lambda>row. length row = n) (r # rest)"
    by simp
  then show ?case by blast
qed

text \<open>The rows \<open>ReadAll\<close> returns all have as many fields as the first: a feed with a
  shorter or longer row does not reach the loop over the rows, it is a decoding error.\<close>

lemma ReadAll_same_length:
  assumes "ReadAll w body = Inr (header # data)" and "header \<noteq> []"
  shows "list_all (\<lambda>row. length row = length header) data"
proof (cases "csv_scan w body")
  case Nil
  with assms show ?thesis by (simp add: ReadAll_def)
next
  case (Cons r scanned)
  show ?thesis
  proof (cases r)
    case (Inl e)
    with Cons assms show ?thesis by (simp add: ReadAll_def)
  next
    case (Inr first)
    with Cons assms have l: "ReadAll_loop (length first) scanned [first] = Inr (header # data)"
      by (simp add: ReadAll_def)
    from ReadAll_loop_prefix [OF l] have "first = header" by auto
    with assms(2) l ReadAll_loop_same_length [OF l] show ?thesis by auto
  qed
qed

subsection \<open>The concrete feeds, continued\<close>



lemma ragged_get:
  "http_Get (feed_world code ragged_body ragged_rows) roster_url =
     Inr \<lparr>StatusCode = code, Body = ragged_body\<rparr>"
  by (simp add: feed_world_def)

lemma ragged_read:
  "ReadAll (feed_world code ragged_body ragged_rows) ragged_body = Inl ErrFieldCount"
  by (simp add: ReadAll_def feed_world_def ragged_rows_def)

section \<open>The claims\<close>

text \<open>
  C1 (as amended). When \<open>http.Get\<close> itself returns an error, the pipeline fails with that
  error and emits no records. A non-success HTTP status is no error: the pipeline never
  looks at the status code, so it decodes and normalises the body of a 404 or 500 response
  exactly as it would that of a 200 response.
\<close>

theorem status_code_is_never_inspected:
  "(http_Get w url = Inl e \<longrightarrow>
      readCSVFromUrl v w url fx = (Inl e, fx\<lparr>requests := requests fx @ [url]\<rparr>)) \<and>
   (http_Get w url = Inr resp \<longrightarrow>
      readCSVFromUrl v w url fx =
      readCSVFromUrl v (w\<lparr>http_Get := (\<lambda>u. Inr (resp\<lparr>StatusCode := code\<rparr>))\<rparr>) url fx)"
  by (simp add: readCSVFromUrl_def Let_def split: sum.splits)

theorem status_code_is_never_inspected_witness:
  "http_Get (roster_world 404) ''https://nowhere.example/'' = Inl (GetError ''no such host'') \<and>
   readCSVFromUrl SixLayouts (roster_world 404) ''https://nowhere.example/'' fx0 =
     (Inl (GetError ''no such host''), fx0\<lparr>requests := [''https://nowhere.example/'']\<rparr>) \<and>
   http_Get (roster_world 404) roster_url = Inr \<lparr>StatusCode = 404, Body = roster_body\<rparr> \<and>
   readCSVFromUrl SixLayouts (roster_world 404) roster_url fx0 =
     readCSVFromUrl SixLayouts
       ((roster_world 404)\<lparr>http_Get := (\<lambda>u. Inr \<lparr>StatusCode = 200, Body = roster_body\<rparr>)\<rparr>)
       roster_url fx0"
proof -
  have a: "http_Get (roster_world 404) ''https://nowhere.example/'' = Inl (GetError ''no such host'')"
    by (simp add: roster_world_def feed_world_def roster_url_def)
  have b: "http_Get (roster_world 404) roster_url = Inr \<lparr>StatusCode = 404, Body = roster_body\<rparr>"
    by (rule roster_get)
  from a b
    status_code_is_never_inspected [where w = "roster_world 404"
      and url = "''https://nowhere.example/''" and e = "GetError ''no such host''"
      and v = SixLayouts and fx = fx0]
    status_code_is_never_inspected [where w = "roster_world 404" and url = roster_url
      and v = SixLayouts and fx = fx0
      and resp = "\<lparr>StatusCode = 404, Body = roster_body\<rparr>" and code = 200]
  show ?thesis by (simp add: fx0_def)
qed

theorem server_error_is_parsed_counterexample:
  "http_Get (roster_world 500) roster_url = Inr \<lparr>StatusCode = 500, Body = roster_body\<rparr> \<and>
   readCSVFromUrl SixLayouts (roster_world 500) roster_url fx0 = (Inr [ann, cy, di], fx1)"
  by (simp add: roster_get roster_run)




text \<open>
  C3. \<open>parseDate\<close> trims the string and tries the layouts DD/MM/YYYY, D/M/YYYY, M/D/YYYY,
  DD/M/YYYY, D/MM/YYYY (and YYYY in the variant with six layouts) in this order; its result
  is that of the first layout that parses. The string "03/04/2020" gives 3 April 2020,
  although the layout M/D/YYYY alone would read it as 4 March.
\<close>

theorem parseDate_first_layout_wins:
  "layouts SixLayouts =
     [''02/01/2006'', ''2/1/2006'', ''1/2/2006'', ''02/1/2006'', ''2/01/2006'', ''2006''] \<and>
   layouts FiveLayouts =
     [''02/01/2006'', ''2/1/2006'', ''1/2/2006'', ''02/1/2006'', ''2/01/2006''] \<and>
   parseDate v dateStr =
     (case find (\<lambda>layout. \<not> isl (Parse layout (TrimSpace dateStr))) (layouts v) of
        Some layout \<Rightarrow> Parse layout (TrimSpace dateStr)
      | None \<Rightarrow> Inl (Errorf (''unable to parse date: '' @ TrimSpace dateStr))) \<and>
   parseDate v ''03/04/2020'' = Inr (midnight 2020 4 3) \<and>
   Parse ''1/2/2006'' ''03/04/2020'' = Inr (midnight 2020 3 4)"
proof -
  have "parseDate SixLayouts ''03/04/2020'' = Inr (midnight 2020 4 3)" by code_simp
  moreover have "parseDate FiveLayouts ''03/04/2020'' = Inr (midnight 2020 4 3)" by code_simp
  ultimately have "parseDate v ''03/04/2020'' = Inr (midnight 2020 4 3)" by (cases v) simp_all
  moreover have "Parse ''1/2/2006'' ''03/04/2020'' = Inr (midnight 2020 3 4)" by code_simp
  ultimately show ?thesis using parseDate_find [of v dateStr] by (simp add: layouts_def)
qed

text \<open>
  C4. A row after the first with at least six fields whose date matches none of the
  layouts does not make the run fail: the run succeeds, logs the row's index with the error,
  and emits the row's record where it belongs, with the clock's reading at that moment as
  join date and \<open>AddDate(1, 0, 0)\<close> of that reading, a date of the next year, as
  expiration date.
\<close>

theorem unparseable_date_falls_back_to_now:
  assumes "http_Get w url = Inr resp"
    and "ReadAll w (Body resp) = Inr (pre @ row # post)"
    and "pre \<noteq> []" and "6 \<le> length row"
    and "list_all (\<lambda>layout. isl (Parse layout (TrimSpace (row ! 5)))) (layouts v)"
  shows "\<exists>ms fxa rest fxb.
    range_data v w 0 pre ([], fx\<lparr>requests := requests fx @ [url]\<rparr>) = (ms, fxa) \<and>
    readCSVFromUrl v w url fx =
      (Inr (ms @
         \<lparr>FirstName = TrimSpace (row ! 1), LastName = TrimSpace (row ! 2),
          Email = TrimSpace (row ! 3), JoinDate = Now w (clock fxa),
          ExpirationDate = AddDate (Now w (clock fxa)) 1 0 0\<rparr> # rest), fxb) \<and>
    (length pre, Errorf (''unable to parse date: '' @ TrimSpace (row ! 5))) \<in> set (logged fxb) \<and>
    (valid_time (Now w (clock fxa)) \<longrightarrow>
       Year (AddDate (Now w (clock fxa)) 1 0 0) = Year (Now w (clock fxa)) + 1)"
proof -
  let ?e = "Errorf (''unable to parse date: '' @ TrimSpace (row ! 5))"
  from assms(5) have p: "parseDate v (row ! 5) = Inl ?e" by (rule parseDate_unparseable)
  from run_at_row [OF assms(1-4), of v fx] obtain ms fxa rest fxb where
    a: "range_data v w 0 pre ([], fx\<lparr>requests := requests fx @ [url]\<rparr>) = (ms, fxa)" and
    l: "prefix (logged (snd (row_step v w (length pre) row (ms, fxa)))) (logged fxb)" and
    r: "readCSVFromUrl v w url fx = (Inr (fst (row_step v w (length pre) row (ms, fxa)) @ rest), fxb)"
    by blast
  from assms(3,4) p have s: "row_step v w (length pre) row (ms, fxa) =
     (ms @ [member_of row (Now w (clock fxa))],
      fxa\<lparr>logged := logged fxa @ [(length pre, ?e)], clock := clock fxa + 1\<rparr>)"
    by (simp add: row_step_fallback)
  from l s have "(length pre, ?e) \<in> set (logged fxb)"
    by (auto simp: prefix_def)
  moreover have "valid_time (Now w (clock fxa)) \<longrightarrow>
       Year (AddDate (Now w (clock fxa)) 1 0 0) = Year (Now w (clock fxa)) + 1"
    by (simp add: AddDate_year)
  ultimately show ?thesis using a r s by (simp add: member_of_def)
qed

theorem unparseable_date_falls_back_to_now_witness:
  "http_Get (roster_world 200) roster_url = Inr \<lparr>StatusCode = 200, Body = roster_body\<rparr> \<and>
   ReadAll (roster_world 200) (Body \<lparr>StatusCode = 200, Body = roster_body\<rparr>) =
     Inr (take 3 roster_rows @ [''x'', ''Di'', ''Roe'', ''di@x.com'', ''y'', ''not-a-date''] # []) \<and>
   take 3 roster_rows \<noteq> [] \<and>
   6 \<le> length [''x'', ''Di'', ''Roe'', ''di@x.com'', ''y'', ''not-a-date''] \<and>
   list_all (\<lambda>layout. isl (Parse layout (TrimSpace ''not-a-date''))) (layouts SixLayouts) \<and>
   (\<exists>ms fxa rest fxb.
      range_data SixLayouts (roster_world 200) 0 (take 3 roster_rows)
        ([], fx0\<lparr>requests := requests fx0 @ [roster_url]\<rparr>) = (ms, fxa) \<and>
      readCSVFromUrl SixLayouts (roster_world 200) roster_url fx0 =
        (Inr (ms @
           \<lparr>FirstName = ''Di'', LastName = ''Roe'', Email = ''di@x.com'',
            JoinDate = Now (roster_world 200) (clock fxa),
            ExpirationDate = AddDate (Now (roster_world 200) (clock fxa)) 1 0 0\<rparr> # rest), fxb) \<and>
      (3, Errorf ''unable to parse date: not-a-date'') \<in> set (logged fxb) \<and>
      Year (AddDate (Now (roster_world 200) (clock fxa)) 1 0 0) =
        Year (Now (roster_world 200) (clock fxa)) + 1)"
proof -
  let ?row = "[''x'', ''Di'', ''Roe'', ''di@x.com'', ''y'', ''not-a-date'']"
  have a: "http_Get (roster_world 200) roster_url = Inr \<lparr>StatusCode = 200, Body = roster_body\<rparr>"
    by (rule roster_get)
  have b: "ReadAll (roster_world 200) (Body \<lparr>StatusCode = 200, Body = roster_body\<rparr>) =
     Inr (take 3 roster_rows @ ?row # [])"
    by (simp add: roster_read roster_rows_def)
  have c: "take 3 roster_rows \<noteq> []" by (simp add: roster_rows_def)
  have d: "6 \<le> length ?row" by simp
  have t: "TrimSpace ''not-a-date'' = ''not-a-date''" "TrimSpace ''Di'' = ''Di''"
    "TrimSpace ''Roe'' = ''Roe''" "TrimSpace ''di@x.com'' = ''di@x.com''"
    by code_simp+
  have "list_all (\<lambda>layout. isl (Parse layout (TrimSpace ''not-a-date''))) (layouts SixLayouts)"
    by code_simp
  then have e: "list_all (\<lambda>layout. isl (Parse layout (TrimSpace (?row ! 5)))) (layouts SixLayouts)"
    by simp
  have n: "length roster_rows = 4" by (simp add: roster_rows_def)
  from unparseable_date_falls_back_to_now [OF a b c d e, of fx0] a b c d e
  show ?thesis by (simp add: t n roster_now_valid)
qed



text \<open>
  C6. The record of a row after the first with at least six fields takes its first name
  from field 1, its last name from field 2 and its e-mail address from field 3, each without
  its leading and trailing white space, and its join date from field 5, which is trimmed
  in the same way before the layouts are tried (the clock's reading stands in when none
  matches).
\<close>

theorem retained_row_field_mapping:
  assumes "http_Get w url = Inr resp"
    and "ReadAll w (Body resp) = Inr (pre @ row # post)"
    and "pre \<noteq> []" and "6 \<le> length row"
  shows "\<exists>ms fxa m rest fxb.
    range_data v w 0 pre ([], fx\<lparr>requests := requests fx @ [url]\<rparr>) = (ms, fxa) \<and>
    readCSVFromUrl v w url fx = (Inr (ms @ m # rest), fxb) \<and>
    FirstName m = TrimSpace (row ! 1) \<and> trimmed_of (FirstName m) (row ! 1) \<and>
    LastName m = TrimSpace (row ! 2) \<and> trimmed_of (LastName m) (row ! 2) \<and>
    Email m = TrimSpace (row ! 3) \<and> trimmed_of (Email m) (row ! 3) \<and>
    trimmed_of (TrimSpace (row ! 5)) (row ! 5) \<and>
    JoinDate m =
      (case range_layouts (layouts v) (TrimSpace (row ! 5)) of
         Some parsedTime \<Rightarrow> parsedTime
       | None \<Rightarrow> Now w (clock fxa))"
proof -
  from run_at_row [OF assms, of v fx] obtain ms fxa rest fxb where
    a: "range_data v w 0 pre ([], fx\<lparr>requests := requests fx @ [url]\<rparr>) = (ms, fxa)" and
    r: "readCSVFromUrl v w url fx = (Inr (fst (row_step v w (length pre) row (ms, fxa)) @ rest), fxb)"
    by blast
  define j where "j = (case range_layouts (layouts v) (TrimSpace (row ! 5)) of
         Some parsedTime \<Rightarrow> parsedTime
       | None \<Rightarrow> Now w (clock fxa))"
  from assms(3,4) have "fst (row_step v w (length pre) row (ms, fxa)) = ms @ [member_of row j]"
    by (simp add: row_step_def parseDate_def j_def Let_def split: option.splits)
  with r have "readCSVFromUrl v w url fx = (Inr (ms @ member_of row j # rest), fxb)" by simp
  with a show ?thesis
    by (rule_tac x = ms in exI, rule_tac x = fxa in exI, rule_tac x = "member_of row j" in exI,
        rule_tac x = rest in exI, rule_tac x = fxb in exI)
       (simp add: member_of_def TrimSpace_trimmed_of j_def)
qed

theorem retained_row_field_mapping_witness:
  "http_Get (roster_world 200) roster_url = Inr \<lparr>StatusCode = 200, Body = roster_body\<rparr> \<and>
   ReadAll (roster_world 200) (Body \<lparr>StatusCode = 200, Body = roster_body\<rparr>) =
     Inr (take 2 roster_rows @ [''x'', ''Cy'', ''Poe'', '' cy@x.com '', ''y'', ''29/02/2020'']
          # drop 3 roster_rows) \<and>
   take 2 roster_rows \<noteq> [] \<and>
   6 \<le> length [''x'', ''Cy'', ''Poe'', '' cy@x.com '', ''y'', ''29/02/2020''] \<and>
   (\<exists>ms fxa m rest fxb.
      range_data SixLayouts (roster_world 200) 0 (take 2 roster_rows)
        ([], fx0\<lparr>requests := requests fx0 @ [roster_url]\<rparr>) = (ms, fxa) \<and>
      readCSVFromUrl SixLayouts (roster_world 200) roster_url fx0 = (Inr (ms @ m # rest), fxb) \<and>
      FirstName m = ''Cy'' \<and> LastName m = ''Poe'' \<and> Email m = ''cy@x.com'' \<and>
      trimmed_of (Email m) '' cy@x.com '' \<and> JoinDate m = midnight 2020 2 29)"
proof -
  let ?row = "[''x'', ''Cy'', ''Poe'', '' cy@x.com '', ''y'', ''29/02/2020'']"
  have a: "http_Get (roster_world 200) roster_url = Inr \<lparr>StatusCode = 200, Body = roster_body\<rparr>"
    by (rule roster_get)
  have b: "ReadAll (roster_world 200) (Body \<lparr>StatusCode = 200, Body = roster_body\<rparr>) =
     Inr (take 2 roster_rows @ ?row # drop 3 roster_rows)"
    by (simp add: roster_read roster_rows_def)
  have c: "take 2 roster_rows \<noteq> []" by (simp add: roster_rows_def)
  have d: "6 \<le> length ?row" by simp
  have t: "TrimSpace ''Cy'' = ''Cy''" "TrimSpace ''Poe'' = ''Poe''"
    "TrimSpace '' cy@x.com '' = ''cy@x.com''" "TrimSpace ''29/02/2020'' = ''29/02/2020''"
    by code_simp+
  have p: "range_layouts (layouts SixLayouts) ''29/02/2020'' = Some (midnight 2020 2 29)"
    by code_simp
  from retained_row_field_mapping [OF a b c d, of SixLayouts fx0] obtain ms fxa m rest fxb where
    "range_data SixLayouts (roster_world 200) 0 (take 2 roster_rows)
        ([], fx0\<lparr>requests := requests fx0 @ [roster_url]\<rparr>) = (ms, fxa)"
    "readCSVFromUrl SixLayouts (roster_world 200) roster_url fx0 = (Inr (ms @ m # rest), fxb)"
    "FirstName m = ''Cy''" "LastName m = ''Poe''" "Email m = ''cy@x.com''"
    "trimmed_of (Email m) '' cy@x.com ''" "JoinDate m = midnight 2020 2 29"
    by (auto simp: t p)
  with a b c d show ?thesis by blast
qed


text \<open>
  C8. The pipeline returns an error, and with it no records at all, when \<open>http.Get\<close>
  fails and when \<open>ReadAll\<close> cannot decode the body (which includes a body whose rows
  differ in their number of fields). In every other case it succeeds, with one record for
  each row after the first that has at least six fields: nothing that a decoded row
  contains makes the run fail.
\<close>

theorem only_fetch_and_decode_abort_the_run:
  "(http_Get w url = Inl e \<longrightarrow> fst (readCSVFromUrl v w url fx) = Inl e) \<and>
   (http_Get w url = Inr resp \<and> ReadAll w (Body resp) = Inl e \<longrightarrow>
      fst (readCSVFromUrl v w url fx) = Inl e) \<and>
   (http_Get w url = Inr resp \<and> ReadAll w (Body resp) = Inr data \<longrightarrow>
      (\<exists>members. fst (readCSVFromUrl v w url fx) = Inr members \<and>
         length members = length (filter (\<lambda>row. 6 \<le> length row) (tl data))))"
proof -
  have "\<exists>members. fst (readCSVFromUrl v w url fx) = Inr members \<and>
         length members = length (filter (\<lambda>row. 6 \<le> length row) (tl data))"
    if "http_Get w url = Inr resp" "ReadAll w (Body resp) = Inr data"
  proof -
    obtain recs fx' where
      "range_data v w 0 data ([], fx\<lparr>requests := requests fx @ [url]\<rparr>) = ([] @ recs, fx')"
      "length recs = length (filter (\<lambda>row. 6 \<le> length row) (if (0::nat) = 0 then tl data else data))"
      using range_data_grows [of v w 0 data "[]" "fx\<lparr>requests := requests fx @ [url]\<rparr>"]
      by blast
    with that show ?thesis by (simp add: readCSVFromUrl_def)
  qed
  then show ?thesis by (simp add: readCSVFromUrl_def)
qed

theorem only_fetch_and_decode_abort_the_run_witness:
  "http_Get (roster_world 200) ''https://nowhere.example/'' = Inl (GetError ''no such host'') \<and>
   fst (readCSVFromUrl SixLayouts (roster_world 200) ''https://nowhere.example/'' fx0) =
     Inl (GetError ''no such host'') \<and>
   http_Get (feed_world 200 ragged_body ragged_rows) roster_url =
     Inr \<lparr>StatusCode = 200, Body = ragged_body\<rparr> \<and>
   ReadAll (feed_world 200 ragged_body ragged_rows) ragged_body = Inl ErrFieldCount \<and>
   fst (readCSVFromUrl SixLayouts (feed_world 200 ragged_body ragged_rows) roster_url fx0) =
     Inl ErrFieldCount \<and>
   ReadAll (roster_world 200) roster_body = Inr roster_rows \<and>
   (\<exists>members. fst (readCSVFromUrl SixLayouts (roster_world 200) roster_url fx0) = Inr members \<and>
      length members = 3)"
proof -
  let ?ragged = "feed_world 200 ragged_body ragged_rows"
  have a: "http_Get (roster_world 200) ''https://nowhere.example/'' = Inl (GetError ''no such host'')"
    by (simp add: roster_world_def feed_world_def roster_url_def)
  have b: "http_Get ?ragged roster_url = Inr \<lparr>StatusCode = 200, Body = ragged_body\<rparr>"
    "ReadAll ?ragged (Body \<lparr>StatusCode = 200, Body = ragged_body\<rparr>) = Inl ErrFieldCount"
    by (simp_all add: ragged_get ragged_read)
  have c: "http_Get (roster_world 200) roster_url = Inr \<lparr>StatusCode = 200, Body = roster_body\<rparr>"
    "ReadAll (roster_world 200) (Body \<lparr>StatusCode = 200, Body = roster_body\<rparr>) = Inr roster_rows"
    by (simp_all add: roster_get roster_read)
  have n: "length (filter (\<lambda>row. 6 \<le> length row) (tl roster_rows)) = 3"
    by (simp add: roster_rows_def)
  from a b c n
    only_fetch_and_decode_abort_the_run [where w = "roster_world 200"
      and url = "''https://nowhere.example/''" and e = "GetError ''no such host''"
      and v = SixLayouts and fx = fx0]
    only_fetch_and_decode_abort_the_run [where w = ?ragged and url = roster_url
      and v = SixLayouts and fx = fx0
      and resp = "\<lparr>StatusCode = 200, Body = ragged_body\<rparr>"
      and e = ErrFieldCount]
    only_fetch_and_decode_abort_the_run [where w = "roster_world 200" and url = roster_url
      and v = SixLayouts and fx = fx0
      and resp = "\<lparr>StatusCode = 200, Body = roster_body\<rparr>"
      and data = roster_rows]
  show ?thesis by simp
qed

text \<open>
  C9. If the environment variable \<open>CSV_URL\<close> is unset or empty (\<open>os.Getenv\<close> answers
  the empty string in both cases), \<open>fetchMemberData\<close> returns an error and no records, and
  the effects are untouched: no URL has been requested.
\<close>

theorem fetchMemberData_without_url:
  "Getenv w ''CSV_URL'' = [] \<Longrightarrow>
   fetchMemberData v w fx = (Inl (Errorf ''CSV_URL environment variable is not set''), fx)"
  by (simp add: fetchMemberData_def)

theorem fetchMemberData_without_url_witness:
  "Getenv ((roster_world 200)\<lparr>Getenv := (\<lambda>name. [])\<rparr>) ''CSV_URL'' = [] \<and>
   fetchMemberData SixLayouts ((roster_world 200)\<lparr>Getenv := (\<lambda>name. [])\<rparr>) fx0 =
     (Inl (Errorf ''CSV_URL environment variable is not set''), fx0) \<and>
   requests fx0 = []"
  using fetchMemberData_without_url [of "(roster_world 200)\<lparr>Getenv := (\<lambda>name. [])\<rparr>" SixLayouts fx0]
  by (simp add: fx0_def)

text \<open>
  C10. The record and the effects of a row with at least six fields depend on its fields
  1, 2, 3 and 5 only: replacing the row, at its place in the feed, by any row with at least
  six fields that agrees with it on these four changes neither the loop's result nor the
  run's, under the same clock.
\<close>

theorem record_depends_on_four_fields_only:
  assumes "6 \<le> length row" and "6 \<le> length row'"
    and "row ! 1 = row' ! 1" and "row ! 2 = row' ! 2" and "row ! 3 = row' ! 3"
    and "row ! 5 = row' ! 5"
  shows "row_step v w i row acc = row_step v w i row' acc \<and>
    range_data v w j (pre @ row # post) acc = range_data v w j (pre @ row' # post) acc \<and>
    (http_Get w url = Inr resp \<and> ReadAll w (Body resp) = Inr (pre @ row # post) \<and>
     http_Get w' url = Inr resp' \<and> ReadAll w' (Body resp') = Inr (pre @ row' # post) \<and>
     Now w' = Now w \<longrightarrow>
     readCSVFromUrl v w' url fx = readCSVFromUrl v w url fx)"
proof -
  have s: "row_step v w i row acc = row_step v w i row' acc" for i acc
    using assms by (cases acc) (simp add: row_step_def member_of_def Let_def split: sum.splits)
  then have r: "range_data v w j (pre @ row # post) acc = range_data v w j (pre @ row' # post) acc"
    for j acc
    by (simp add: range_data_append)
  have "readCSVFromUrl v w' url fx = readCSVFromUrl v w url fx"
    if "http_Get w url = Inr resp" "ReadAll w (Body resp) = Inr (pre @ row # post)"
      "http_Get w' url = Inr resp'" "ReadAll w' (Body resp') = Inr (pre @ row' # post)"
      "Now w' = Now w"
    using that r [of 0] by (simp add: readCSVFromUrl_def range_data_Now [OF that(5)])
  with s r show ?thesis by blast
qed

theorem record_depends_on_four_fields_only_witness:
  "6 \<le> length [''x'', ''Ann'', ''Lee'', ''ann@x.com'', ''y'', ''15/03/2023''] \<and>
   6 \<le> length [''17'', ''Ann'', ''Lee'', ''ann@x.com'', ''555-0100'', ''15/03/2023''] \<and>
   roster_rows = [] @ [''H1'', ''H2'', ''H3'', ''H4'', ''H5'', ''H6''] #
     [''x'', ''Ann'', ''Lee'', ''ann@x.com'', ''y'', ''15/03/2023''] # drop 2 roster_rows \<and>
   http_Get (roster_world 200) roster_url = Inr \<lparr>StatusCode = 200, Body = roster_body\<rparr> \<and>
   ReadAll (roster_world 200) roster_body = Inr roster_rows \<and>
   ReadAll (feed_world 200 roster_body
      (take 1 roster_rows @ [''17'', ''Ann'', ''Lee'', ''ann@x.com'', ''555-0100'', ''15/03/2023'']
        # drop 2 roster_rows)) roster_body =
     Inr (take 1 roster_rows @ [''17'', ''Ann'', ''Lee'', ''ann@x.com'', ''555-0100'', ''15/03/2023'']
        # drop 2 roster_rows) \<and>
   readCSVFromUrl SixLayouts
     (feed_world 200 roster_body
       (take 1 roster_rows @ [''17'', ''Ann'', ''Lee'', ''ann@x.com'', ''555-0100'', ''15/03/2023'']
         # drop 2 roster_rows)) roster_url fx0 =
     (Inr [ann, cy, di], fx1)"
proof -
  let ?row = "[''x'', ''Ann'', ''Lee'', ''ann@x.com'', ''y'', ''15/03/2023'']"
  let ?row' = "[''17'', ''Ann'', ''Lee'', ''ann@x.com'', ''555-0100'', ''15/03/2023'']"
  let ?w' = "feed_world 200 roster_body (take 1 roster_rows @ ?row' # drop 2 roster_rows)"
  have l: "6 \<le> length ?row" "6 \<le> length ?row'" by simp_all
  have e: "?row ! 1 = ?row' ! 1" "?row ! 2 = ?row' ! 2" "?row ! 3 = ?row' ! 3"
    "?row ! 5 = ?row' ! 5" by simp_all
  have g: "http_Get (roster_world 200) roster_url = Inr \<lparr>StatusCode = 200, Body = roster_body\<rparr>"
    "http_Get ?w' roster_url = Inr \<lparr>StatusCode = 200, Body = roster_body\<rparr>"
    by (simp_all add: roster_world_def feed_world_def)
  have r: "ReadAll (roster_world 200) (Body \<lparr>StatusCode = 200, Body = roster_body\<rparr>) =
      Inr (take 1 roster_rows @ ?row # drop 2 roster_rows)"
    by (simp add: roster_read roster_rows_def)
  have r': "ReadAll ?w' (Body \<lparr>StatusCode = 200, Body = roster_body\<rparr>) =
      Inr (take 1 roster_rows @ ?row' # drop 2 roster_rows)"
    by (simp add: ReadAll_def feed_world_def roster_rows_def)
  have n: "Now ?w' = Now (roster_world 200)" by (simp add: roster_world_def feed_world_def)
  from record_depends_on_four_fields_only [OF l e, where v = SixLayouts
      and w = "roster_world 200" and w' = ?w' and url = roster_url and fx = fx0
      and resp = "\<lparr>StatusCode = 200, Body = roster_body\<rparr>"
      and resp' = "\<lparr>StatusCode = 200, Body = roster_body\<rparr>"
      and pre = "take 1 roster_rows" and post = "drop 2 roster_rows"] g r r' n
  have "readCSVFromUrl SixLayouts ?w' roster_url fx0 =
        readCSVFromUrl SixLayouts (roster_world 200) roster_url fx0"
    by blast
  with roster_run [of SixLayouts 200] g r r' show ?thesis
    by (simp add: roster_read roster_rows_def)
qed

end
